theory Spec2Isabelle
  imports Main "HOL-Library.Multiset" "HOL-Library.Sublist" "HOL-Library.List_Lexorder" "HOL-Library.Char_ord"
begin

section \<open>Strings and paths\<close>

text \<open>
  File names and paths are \<^typ>\<open>string\<close>s. The path functions are those of Python's
  \<open>posixpath\<close> (the \<open>os.path\<close> of a POSIX system), written with the indices the
  library computes: \<open>rfind\<close> is \<open>str.rfind\<close> for a one-character needle, \<open>-1\<close> when
  the character does not occur.
\<close>

definition sep :: char where
  "sep = CHR ''/''"

definition extsep :: char where
  "extsep = CHR ''.''"

definition rfind :: "char \<Rightarrow> string \<Rightarrow> int" where
  "rfind c s = (case filter (\<lambda>i. s ! i = c) (rev [0..<length s]) of
                  [] \<Rightarrow> - 1
                | i # _ \<Rightarrow> int i)"

definition rstrip_sep :: "string \<Rightarrow> string" where
  "rstrip_sep s = rev (dropWhile (\<lambda>c. c = sep) (rev s))"

definition basename :: "string \<Rightarrow> string" where
  "basename p = drop (nat (rfind sep p + 1)) p"

definition dirname :: "string \<Rightarrow> string" where
  "dirname p =
     (let hd_part = take (nat (rfind sep p + 1)) p
      in if hd_part \<noteq> [] \<and> hd_part \<noteq> replicate (length hd_part) sep
         then rstrip_sep hd_part else hd_part)"

definition join :: "string \<Rightarrow> string \<Rightarrow> string" where
  "join a b =
     (if b \<noteq> [] \<and> hd b = sep then b
      else if a = [] \<or> last a = sep then a @ b
      else a @ sep # b)"

definition splitext :: "string \<Rightarrow> string \<times> string" where
  "splitext p =
     (let sepIndex = rfind sep p; dotIndex = rfind extsep p
      in if dotIndex > sepIndex \<and>
            list_ex (\<lambda>i. p ! i \<noteq> extsep) [nat (sepIndex + 1)..<nat dotIndex]
         then (take (nat dotIndex) p, drop (nat dotIndex) p)
         else (p, []))"

section \<open>Filename validation\<close>

text \<open>
  \<open>ILLEGAL_CHARS_WIN\<close> is the character class \<open>[<>:"/\\|?*]\<close>; \<open>re.search\<close> of a
  character class succeeds exactly when some character of the string is in the class.
\<close>

definition ILLEGAL_CHARS_WIN :: "char list" where
  "ILLEGAL_CHARS_WIN =
     [CHR ''<'', CHR ''>'', CHR '':'', CHR 0x22, CHR ''/'', CHR 0x5C, CHR ''|'', CHR ''?'', CHR ''*'']"

definition is_valid_filename :: "string \<Rightarrow> bool" where
  "is_valid_filename filename = (\<not> list_ex (\<lambda>c. c \<in> set ILLEGAL_CHARS_WIN) filename)"

section \<open>Collision detection\<close>

type_synonym change = "string \<times> string \<times> string"

text \<open>
  A Python \<open>dict\<close> from target path to the list of old names, in insertion order, is an
  association list with distinct keys. \<open>dict_append\<close> is the body of the first loop of
  \<open>detect_collisions\<close>: create the key with an empty list when it is new, then append.
\<close>

type_synonym names_dict = "(string \<times> string list) list"

fun dict_append :: "string \<Rightarrow> string \<Rightarrow> names_dict \<Rightarrow> names_dict" where
  "dict_append key v [] = [(key, [v])]"
| "dict_append key v ((k, vs) # d) =
     (if k = key then (k, vs @ [v]) # d else (k, vs) # dict_append key v d)"

definition target_path :: "change \<Rightarrow> string" where
  "target_path ch = (case ch of (full_path, old_name, new_name) \<Rightarrow> join (dirname full_path) new_name)"

definition group_step :: "names_dict \<Rightarrow> change \<Rightarrow> names_dict" where
  "group_step new_names ch =
     (case ch of (full_path, old_name, new_name) \<Rightarrow>
        dict_append (join (dirname full_path) new_name) old_name new_names)"

definition detect_collisions :: "change list \<Rightarrow> names_dict" where
  "detect_collisions changes =
     filter (\<lambda>(key, old_names). length old_names > 1) (foldl group_step [] changes)"

text \<open>The old names of the triples that claim a given target path, in plan order.\<close>

definition claimants :: "string \<Rightarrow> change list \<Rightarrow> string list" where
  "claimants key changes = map (\<lambda>ch. fst (snd ch)) (filter (\<lambda>ch. target_path ch = key) changes)"

section \<open>Python string methods\<close>

text \<open>
  The methods of \<open>str\<close> that the program calls belong to Python, and their case and
  whitespace tables to the Unicode database; they are a parameter of the model.
  \<open>str_split\<close> is \<open>split\<close> without argument.
\<close>

record py_str =
  str_strip :: "string \<Rightarrow> string"
  str_split :: "string \<Rightarrow> string list"
  str_upper :: "string \<Rightarrow> string"
  str_lower :: "string \<Rightarrow> string"
  str_capitalize :: "string \<Rightarrow> string"

text \<open>\<open>" ".join(parts)\<close>, and so on for another separator.\<close>

fun join_with :: "string \<Rightarrow> string list \<Rightarrow> string" where
  "join_with s [] = []"
| "join_with s [x] = x"
| "join_with s (x # y # ys) = x @ s @ join_with s (y # ys)"

text \<open>
  \<open>ascii_str\<close> gives the methods on the strings of the examples, whose letters are
  ASCII: a character is a code point below 256, \<open>is_space\<close> is \<open>str.isspace\<close> on these
  code points, and the case mappings change the letters \<open>a\<close> to \<open>z\<close> and \<open>A\<close> to \<open>Z\<close>
  only.
\<close>

definition is_space :: "char \<Rightarrow> bool" where
  "is_space c = (c \<in> set [CHR 0x09, CHR 0x0A, CHR 0x0B, CHR 0x0C, CHR 0x0D,
                          CHR 0x1C, CHR 0x1D, CHR 0x1E, CHR 0x1F, CHR 0x20,
                          CHR 0x85, CHR 0xA0])"

definition ascii_strip :: "string \<Rightarrow> string" where
  "ascii_strip s = rev (dropWhile is_space (rev (dropWhile is_space s)))"

definition lowers :: string where
  "lowers = ''abcdefghijklmnopqrstuvwxyz''"

definition uppers :: string where
  "uppers = ''ABCDEFGHIJKLMNOPQRSTUVWXYZ''"

definition upper_char :: "char \<Rightarrow> char" where
  "upper_char c = (case map_of (zip lowers uppers) c of Some u \<Rightarrow> u | None \<Rightarrow> c)"

definition lower_char :: "char \<Rightarrow> char" where
  "lower_char c = (case map_of (zip uppers lowers) c of Some l \<Rightarrow> l | None \<Rightarrow> c)"

definition ascii_capitalize :: "string \<Rightarrow> string" where
  "ascii_capitalize s = (case s of [] \<Rightarrow> [] | c # cs \<Rightarrow> upper_char c # map lower_char cs)"

fun split_acc :: "string \<Rightarrow> string \<Rightarrow> string list" where
  "split_acc [] cur = (if cur = [] then [] else [cur])"
| "split_acc (c # cs) cur =
     (if is_space c then (if cur = [] then split_acc cs [] else cur # split_acc cs [])
      else split_acc cs (cur @ [c]))"

definition ascii_str :: py_str where
  "ascii_str =
     \<lparr> str_strip = ascii_strip,
       str_split = (\<lambda>s. split_acc s []),
       str_upper = map upper_char,
       str_lower = map lower_char,
       str_capitalize = ascii_capitalize \<rparr>"

section \<open>The regular expression library\<close>

text \<open>
  Python's \<open>re\<close> module is not code of the program. The program reaches it through
  \<open>re.compile\<close>, \<open>re.search\<close> and \<open>re.sub\<close>; an engine is a record of these three.
  \<open>re_compile\<close> tells whether the pattern compiles (otherwise \<open>re.error\<close> is raised);
  \<open>re_search pattern string flags\<close> tells whether there is a match, and \<open>re_sub pattern
  repl string flags\<close> is the substituted string; either may raise.
\<close>

datatype error = ReError | OSError

record re_engine =
  re_compile :: "string \<Rightarrow> bool"
  re_search :: "string \<Rightarrow> string \<Rightarrow> nat \<Rightarrow> error + bool"
  re_sub :: "string \<Rightarrow> string \<Rightarrow> string \<Rightarrow> nat \<Rightarrow> error + string"

definition bs :: char where
  "bs = CHR 0x5C"

text \<open>
  \<open>re.escape\<close> puts a backslash before each of the characters
  \<open>()[]{}?*+-|^$\.&~#\<close>, space, tab, newline, carriage return, vertical tab and form feed.
\<close>

definition special_chars :: "char list" where
  "special_chars =
     ''()[]{}?*+-|^$'' @ [CHR 0x5C] @ ''.&~# '' @ [CHR 0x09, CHR 0x0A, CHR 0x0D, CHR 0x0B, CHR 0x0C]"

definition re_escape :: "string \<Rightarrow> string" where
  "re_escape s = concat (map (\<lambda>c. if c \<in> set special_chars then [bs, c] else [c]) s)"

text \<open>
  The fragment of the pattern language that the theory gives a meaning to: a pattern
  without metacharacter, in which a backslash may precede a character that is neither an
  ASCII letter nor a digit, denotes the string of its characters (\<open>parse_literal\<close>); and
  the patterns \<open>\s+\<close> and \<open>\d+\<close> denote a non-empty run of whitespace or digits.
\<close>

definition metachars :: "char list" where
  "metachars = ''.^$*+?{}[]|()'' @ [CHR 0x5C]"

definition is_alnum :: "char \<Rightarrow> bool" where
  "is_alnum c = (c \<in> set (lowers @ uppers @ ''0123456789''))"

fun parse_literal :: "string \<Rightarrow> string option" where
  "parse_literal [] = Some []"
| "parse_literal [c] = (if c \<in> set metachars then None else Some [c])"
| "parse_literal (c # d # cs) =
     (if c = bs then (if is_alnum d then None else map_option (\<lambda>l. d # l) (parse_literal cs))
      else if c \<in> set metachars then None
      else map_option (\<lambda>l. c # l) (parse_literal (d # cs)))"

text \<open>
  Searching for a literal is a substring test; substituting it replaces the leftmost
  non-overlapping occurrences, and the empty literal matches before every character and at
  the end (as \<open>str.replace\<close> does).
\<close>

fun search_lit :: "string \<Rightarrow> string \<Rightarrow> bool" where
  "search_lit l [] = (l = [])"
| "search_lit l (c # cs) = (prefix l (c # cs) \<or> search_lit l cs)"

function sub_lit :: "string \<Rightarrow> string \<Rightarrow> string \<Rightarrow> string" where
  "sub_lit l r [] = (if l = [] then r else [])"
| "sub_lit l r (c # cs) =
     (if l = [] then r @ c # sub_lit l r cs
      else if prefix l (c # cs) then r @ sub_lit l r (drop (length l) (c # cs))
      else c # sub_lit l r cs)"
  by pat_completeness auto
termination
  by (relation "measure (\<lambda>(l, r, s). length s)") auto

datatype char_class = Whitespace | Digit

definition in_class :: "char_class \<Rightarrow> char \<Rightarrow> bool" where
  "in_class k c = (case k of Whitespace \<Rightarrow> is_space c | Digit \<Rightarrow> c \<in> set ''0123456789'')"

definition parse_class_plus :: "string \<Rightarrow> char_class option" where
  "parse_class_plus p =
     (if p = [bs, CHR ''s'', CHR ''+''] then Some Whitespace
      else if p = [bs, CHR ''d'', CHR ''+''] then Some Digit
      else None)"

function sub_runs :: "char_class \<Rightarrow> string \<Rightarrow> string \<Rightarrow> string" where
  "sub_runs k r [] = []"
| "sub_runs k r (c # cs) =
     (if in_class k c then r @ sub_runs k r (dropWhile (in_class k) cs)
      else c # sub_runs k r cs)"
  by pat_completeness auto
termination
  by (relation "measure (\<lambda>(k, r, s). length s)")
     (auto simp: less_Suc_eq_le length_dropWhile_le)

text \<open>
  \<open>fragment_engine\<close> is an engine for this fragment and nothing else: it rejects every
  other pattern, and every replacement template that contains a backslash.
\<close>

definition fragment_engine :: re_engine where
  "fragment_engine =
     \<lparr> re_compile = (\<lambda>p.
          case parse_class_plus p of
            Some k \<Rightarrow> True
          | None \<Rightarrow> (case parse_literal p of Some l \<Rightarrow> True | None \<Rightarrow> False)),
       re_search = (\<lambda>p s flags.
          case parse_class_plus p of
            Some k \<Rightarrow> Inr (list_ex (in_class k) s)
          | None \<Rightarrow> (case parse_literal p of
                       Some l \<Rightarrow> Inr (search_lit l s)
                     | None \<Rightarrow> Inl ReError)),
       re_sub = (\<lambda>p r s flags.
          if bs \<in> set r then Inl ReError
          else case parse_class_plus p of
            Some k \<Rightarrow> Inr (sub_runs k r s)
          | None \<Rightarrow> (case parse_literal p of
                       Some l \<Rightarrow> Inr (sub_lit l r s)
                     | None \<Rightarrow> Inl ReError)) \<rparr>"

text \<open>
  An engine treats literal patterns as Python does when, on every pattern of the literal
  fragment and every replacement without backslash, it compiles the pattern, searches for
  the literal and substitutes it.
\<close>

definition literal_semantics :: "re_engine \<Rightarrow> bool" where
  "literal_semantics re =
     (\<forall>p l. parse_literal p = Some l \<longrightarrow>
        re_compile re p \<and>
        (\<forall>s. re_search re p s 0 = Inr (search_lit l s)) \<and>
        (\<forall>r s. bs \<notin> set r \<longrightarrow> re_sub re p r s 0 = Inr (sub_lit l r s)))"

section \<open>The window\<close>

text \<open>
  The output pane and the message boxes are lists of messages; a constructor stands for
  each text the program prints, with the values the text is built from. \<open>MsgRule\<close> is the
  line of sixty \<open>=\<close> signs and \<open>MsgBlank\<close> the empty line.
\<close>

datatype msg =
    MsgNoFiles
  | MsgChooseFolder
  | MsgFound nat
  | MsgSkipIllegal string
  | MsgNoSpaces
  | MsgNothingToReplace
  | MsgNoMatch
  | MsgTryAdjusting
  | MsgSameName
  | MsgStopped
  | MsgWouldBecome string
  | MsgOldName string
  | MsgBlank
  | MsgPleaseAdjust
  | MsgRule
  | MsgPreviewHeader nat
  | MsgPreviewLine string string
  | MsgRenaming
  | MsgRenamed string string
  | MsgRenameFailed string error
  | MsgAllRenamed
  | MsgSomeFailed
  | MsgUpdated nat
  | MsgNotChanged nat
  | MsgLogSaved string
  | MsgLogNotSaved error

datatype dialog =
    DlgInvalidDirectory
  | DlgRegexError
  | DlgNoChanges
  | DlgCollisions
  | DlgConfirm nat
  | DlgComplete
  | DlgFinished

datatype preset =
    ReplaceSpacesWithUnderscores
  | ReplaceSpacesWithHyphens
  | RemoveNumbers
  | RemoveSpecialCharacters
  | ExtractNumbersOnly
  | AddPrefix
  | AddSuffixBeforeExtension
  | RemoveExtraSpaces
  | ConvertToLowercase
  | ConvertToUppercase
  | CamelCase
  | RemoveText
  | ReplaceText

text \<open>The \<open>"pattern"\<close> entry of the table \<open>self.patterns\<close>, where the preset has one.\<close>

definition patterns :: "preset \<Rightarrow> string option" where
  "patterns p =
     (case p of
        ReplaceSpacesWithUnderscores \<Rightarrow> Some '' ''
      | ReplaceSpacesWithHyphens \<Rightarrow> Some '' ''
      | RemoveNumbers \<Rightarrow> Some (bs # ''d+'')
      | RemoveSpecialCharacters \<Rightarrow> Some (''[^a-zA-Z0-9._'' @ bs # ''-'' @ bs # ''s]'')
      | ExtractNumbersOnly \<Rightarrow> Some (''[^'' @ bs # ''d]'')
      | AddPrefix \<Rightarrow> Some ''^''
      | AddSuffixBeforeExtension \<Rightarrow> Some (''(.*)('' @ bs # ''.['' @ bs # ''w]+)$'')
      | RemoveExtraSpaces \<Rightarrow> Some (bs # ''s+'')
      | ConvertToLowercase \<Rightarrow> Some ''(.*)''
      | ConvertToUppercase \<Rightarrow> Some ''(.*)''
      | CamelCase \<Rightarrow> Some ''(.*)''
      | RemoveText \<Rightarrow> None
      | ReplaceText \<Rightarrow> None)"

section \<open>The plan generator\<close>

text \<open>
  One iteration of the loop of \<open>apply_regex\<close>: the file is left out silently, left out
  with a warning, or planned; or a library call raises.
\<close>

datatype outcome = Skipped | Warned msg | Planned change | Raised error

definition apply_regex_file :: "re_engine \<Rightarrow> string \<Rightarrow> string \<Rightarrow> nat \<Rightarrow> string \<Rightarrow> outcome" where
  "apply_regex_file re pattern replacement flags full_path =
     (let old_name = basename full_path
      in case re_search re pattern old_name flags of
           Inl e \<Rightarrow> Raised e
         | Inr False \<Rightarrow> Skipped
         | Inr True \<Rightarrow>
             (case re_sub re pattern replacement old_name flags of
                Inl e \<Rightarrow> Raised e
              | Inr new_name \<Rightarrow>
                  if \<not> is_valid_filename new_name then Warned (MsgSkipIllegal old_name)
                  else if new_name = old_name then Skipped
                  else Planned (full_path, old_name, new_name)))"

text \<open>What \<open>re.search\<close> and \<open>re.sub\<close> return on a name, when they return.\<close>

definition matches :: "re_engine \<Rightarrow> string \<Rightarrow> nat \<Rightarrow> string \<Rightarrow> bool" where
  "matches re pattern flags name = (re_search re pattern name flags = Inr True)"

definition substituted :: "re_engine \<Rightarrow> string \<Rightarrow> string \<Rightarrow> nat \<Rightarrow> string \<Rightarrow> string" where
  "substituted re pattern replacement flags name =
     (case re_sub re pattern replacement name flags of Inr new_name \<Rightarrow> new_name | Inl e \<Rightarrow> name)"

definition returns_on :: "re_engine \<Rightarrow> string \<Rightarrow> string \<Rightarrow> nat \<Rightarrow> string \<Rightarrow> bool" where
  "returns_on re pattern replacement flags name =
     (case re_search re pattern name flags of
        Inl e \<Rightarrow> False
      | Inr False \<Rightarrow> True
      | Inr True \<Rightarrow> (case re_sub re pattern replacement name flags of Inl e \<Rightarrow> False | Inr n \<Rightarrow> True))"

section \<open>Case conversion\<close>

datatype transform_mode = Upper | Lower | Camel

definition new_stem :: "py_str \<Rightarrow> transform_mode \<Rightarrow> string \<Rightarrow> string" where
  "new_stem py mode name =
     (case mode of
        Upper \<Rightarrow> str_upper py name
      | Lower \<Rightarrow> str_lower py name
      | Camel \<Rightarrow> join_with '' '' (map (str_capitalize py) (str_split py name)))"

definition case_new_name :: "py_str \<Rightarrow> transform_mode \<Rightarrow> string \<Rightarrow> string" where
  "case_new_name py mode old_name =
     (case splitext old_name of (name, ext) \<Rightarrow> new_stem py mode name @ ext)"

fun case_changes :: "py_str \<Rightarrow> transform_mode \<Rightarrow> string list \<Rightarrow> change list" where
  "case_changes py mode [] = []"
| "case_changes py mode (full_path # files) =
     (let old_name = basename full_path; new_name = case_new_name py mode old_name
      in if new_name \<noteq> old_name
         then (full_path, old_name, new_name) # case_changes py mode files
         else case_changes py mode files)"

section \<open>The state of the window\<close>

text \<open>
  The file system and the clock are a world \<open>'w\<close> that the program reads and changes
  through the calls it makes; what the calls do is a parameter. \<open>os_rename\<close> returns the
  new world or raises. \<open>open(log_file, 'w')\<close> is \<open>os_open\<close>: it creates or truncates the
  file, or raises; \<open>os_write\<close> is \<open>json.dump\<close> and the closing of the file: it changes
  the world and may raise after it has done so.
\<close>

record log_entry =
  old_name :: string
  new_name :: string
  timestamp :: string

record 'w os =
  os_isdir :: "'w \<Rightarrow> string \<Rightarrow> bool"
  os_listdir :: "'w \<Rightarrow> string \<Rightarrow> error + string list"
  os_isfile :: "'w \<Rightarrow> string \<Rightarrow> bool"
  os_rename :: "'w \<Rightarrow> string \<Rightarrow> string \<Rightarrow> error + 'w"
  os_open :: "'w \<Rightarrow> string \<Rightarrow> error + 'w"
  os_write :: "'w \<Rightarrow> string \<Rightarrow> log_entry list \<Rightarrow> 'w \<times> error option"
  now_iso :: "'w \<Rightarrow> string"
  now_stamp :: "'w \<Rightarrow> string"

text \<open>
  The trace \<open>calls\<close> records each call of \<open>os.rename\<close> and each attempt to write the log
  file, with its success.
\<close>

datatype syscall = Rename string string bool | WriteLog string bool

record 'w gui =
  dir_var :: string
  pattern_var :: preset
  replacement_var :: string
  replace_with_var :: string
  rename_log :: "log_entry list"
  current_changes :: "change list"
  current_collisions :: names_dict
  rename_button :: bool
  output_text :: "msg list"
  dialogs :: "dialog list"
  world :: 'w
  calls :: "syscall list"
  uncaught :: "error list"

text \<open>
  \<open>log_output\<close> inserts the text and then calls \<open>self.root.update()\<close>, which runs the
  handlers of the events that are pending at that moment, before \<open>log_output\<close> returns.
  What these handlers do to the window is the parameter \<open>upd\<close>. An exception in such a
  handler stays in the handler. A message box is modal: no handler of the window runs
  while it is open.
\<close>

definition log_output :: "('w gui \<Rightarrow> 'w gui) \<Rightarrow> msg \<Rightarrow> 'w gui \<Rightarrow> 'w gui" where
  "log_output upd m g = upd (g\<lparr>output_text := output_text g @ [m]\<rparr>)"

definition clear_output :: "'w gui \<Rightarrow> 'w gui" where
  "clear_output g = g\<lparr>output_text := []\<rparr>"

definition messagebox :: "dialog \<Rightarrow> 'w gui \<Rightarrow> 'w gui" where
  "messagebox d g = g\<lparr>dialogs := dialogs g @ [d]\<rparr>"

text \<open>An exception that no handler of the program catches ends the callback.\<close>

definition propagate :: "error \<Rightarrow> 'w gui \<Rightarrow> 'w gui" where
  "propagate e g = g\<lparr>uncaught := uncaught g @ [e]\<rparr>"

section \<open>The file collector\<close>

definition collect_files :: "'w os \<Rightarrow> 'w \<Rightarrow> string \<Rightarrow> bool \<Rightarrow> error + string list" where
  "collect_files sys w dir_path recursive =
     (case os_listdir sys w dir_path of
        Inl e \<Rightarrow> Inl e
      | Inr names \<Rightarrow>
          Inr (sort (filter (os_isfile sys w) (map (join dir_path) names))))"

section \<open>The plan in the window\<close>

text \<open>
  The loop of \<open>apply_regex\<close> threads the window, which the warnings change, and the list \<open>changes\<close>; an
  exception leaves the window as the warnings have made it and returns no list.
\<close>

fun apply_regex_loop ::
  "('w gui \<Rightarrow> 'w gui) \<Rightarrow> re_engine \<Rightarrow> string \<Rightarrow> string \<Rightarrow> nat \<Rightarrow> string list \<Rightarrow> 'w gui
     \<Rightarrow> change list \<Rightarrow> 'w gui \<times> (error + change list)" where
  "apply_regex_loop upd re pattern replacement flags [] g changes = (g, Inr changes)"
| "apply_regex_loop upd re pattern replacement flags (full_path # files) g changes =
     (case apply_regex_file re pattern replacement flags full_path of
        Raised e \<Rightarrow> (g, Inl e)
      | Skipped \<Rightarrow> apply_regex_loop upd re pattern replacement flags files g changes
      | Warned m \<Rightarrow>
          apply_regex_loop upd re pattern replacement flags files (log_output upd m g) changes
      | Planned ch \<Rightarrow>
          apply_regex_loop upd re pattern replacement flags files g (changes @ [ch]))"

definition apply_regex ::
  "('w gui \<Rightarrow> 'w gui) \<Rightarrow> re_engine \<Rightarrow> string list \<Rightarrow> string \<Rightarrow> string \<Rightarrow> nat \<Rightarrow> 'w gui
     \<Rightarrow> 'w gui \<times> (error + change list)" where
  "apply_regex upd re files pattern replacement flags g =
     apply_regex_loop upd re pattern replacement flags files g []"

section \<open>The preview\<close>

datatype rule = Transform transform_mode | Regex string string

definition build_rule :: "py_str \<Rightarrow> 'w gui \<Rightarrow> rule" where
  "build_rule py g =
     (case pattern_var g of
        RemoveText \<Rightarrow> Regex (re_escape (str_strip py (replacement_var g))) []
      | ReplaceText \<Rightarrow>
          Regex (re_escape (str_strip py (replacement_var g))) (str_strip py (replace_with_var g))
      | AddPrefix \<Rightarrow> Regex ''^(.*)$'' (str_strip py (replacement_var g) @ [bs, CHR ''1''])
      | AddSuffixBeforeExtension \<Rightarrow>
          Regex (''^(.*?)('' @ bs # ''.['' @ bs # ''w]+)$'')
                ([bs, CHR ''1''] @ str_strip py (replacement_var g) @ [bs, CHR ''2''])
      | ReplaceSpacesWithUnderscores \<Rightarrow> Regex (bs # ''s+'') ''_''
      | ReplaceSpacesWithHyphens \<Rightarrow> Regex (bs # ''s+'') ''-''
      | RemoveNumbers \<Rightarrow> Regex (bs # ''d+'') []
      | ConvertToUppercase \<Rightarrow> Transform Upper
      | ConvertToLowercase \<Rightarrow> Transform Lower
      | CamelCase \<Rightarrow> Transform Camel
      | other \<Rightarrow> Regex (case patterns other of Some p \<Rightarrow> p | None \<Rightarrow> []) [])"

text \<open>
  The report of the collisions: the loop runs over the map as it is stored when the loop
  starts, and the button is disabled after the last message.
\<close>

definition show_collision :: "('w gui \<Rightarrow> 'w gui) \<Rightarrow> 'w gui \<Rightarrow> string \<times> string list \<Rightarrow> 'w gui" where
  "show_collision upd g kv =
     (case kv of (new_path, old_names) \<Rightarrow>
        log_output upd MsgBlank
          (foldl (\<lambda>g old. log_output upd (MsgOldName old) g)
             (log_output upd (MsgWouldBecome (basename new_path)) g) old_names))"

definition show_collisions :: "('w gui \<Rightarrow> 'w gui) \<Rightarrow> 'w gui \<Rightarrow> 'w gui" where
  "show_collisions upd g =
     (let g1 = log_output upd MsgStopped (log_output upd MsgSameName g);
          g2 = foldl (show_collision upd) g1 (current_collisions g1);
          g3 = log_output upd MsgPleaseAdjust g2
      in g3\<lparr>rename_button := False\<rparr>)"

text \<open>The display of the plan; the button is enabled after the last line.\<close>

definition show_plan :: "('w gui \<Rightarrow> 'w gui) \<Rightarrow> 'w gui \<Rightarrow> 'w gui" where
  "show_plan upd g =
     (let g1 = log_output upd MsgRule g;
          g2 = log_output upd (MsgPreviewHeader (length (current_changes g1))) g1;
          g3 = log_output upd MsgRule g2;
          g4 = foldl (\<lambda>g ch. case ch of (full_path, old, new) \<Rightarrow>
                         log_output upd (MsgPreviewLine old new) g)
                 g3 (current_changes g3)
      in g4\<lparr>rename_button := True\<rparr>)"

text \<open>
  The end of \<open>preview_changes\<close>, from the test for an empty plan on: collision detection,
  then the report of the collisions or the display of the plan.
\<close>

definition finish_preview :: "('w gui \<Rightarrow> 'w gui) \<Rightarrow> 'w gui \<Rightarrow> 'w gui" where
  "finish_preview upd g =
     (if current_changes g = []
      then (log_output upd MsgTryAdjusting (log_output upd MsgNoMatch g))\<lparr>rename_button := False\<rparr>
      else
        let g1 = g\<lparr>current_collisions := detect_collisions (current_changes g)\<rparr>
        in if current_collisions g1 \<noteq> [] then show_collisions upd g1 else show_plan upd g1)"

definition preview_changes ::
  "('w gui \<Rightarrow> 'w gui) \<Rightarrow> py_str \<Rightarrow> re_engine \<Rightarrow> 'w os \<Rightarrow> 'w gui \<Rightarrow> 'w gui" where
  "preview_changes upd py re sys g0 =
     (let g = clear_output g0; dir_path = str_strip py (dir_var g)
      in if dir_path = [] \<or> \<not> os_isdir sys (world g) dir_path
         then messagebox DlgInvalidDirectory g
         else
           let selected_pattern = pattern_var g; rl = build_rule py g
           in case collect_files sys (world g) dir_path False of
                Inl e \<Rightarrow> propagate e g
              | Inr files \<Rightarrow>
                  if files = []
                  then (log_output upd MsgChooseFolder (log_output upd MsgNoFiles g))
                         \<lparr>rename_button := False\<rparr>
                  else
                    let g1 = log_output upd (MsgFound (length files)) g
                    in case rl of
                         Transform mode \<Rightarrow>
                           finish_preview upd (g1\<lparr>current_changes := case_changes py mode files\<rparr>)
                       | Regex pattern replacement \<Rightarrow>
                           if \<not> re_compile re pattern then messagebox DlgRegexError g1
                           else
                             (case apply_regex upd re files pattern replacement 0 g1 of
                                (g2, Inl e) \<Rightarrow> propagate e g2
                              | (g2, Inr changes) \<Rightarrow>
                                  let g3 = g2\<lparr>current_changes := changes\<rparr>
                                  in if selected_pattern \<in> {ReplaceSpacesWithUnderscores,
                                                           ReplaceSpacesWithHyphens} \<and>
                                        \<not> list_ex (\<lambda>f. CHR '' '' \<in> set (basename f)) files
                                     then (log_output upd MsgNothingToReplace
                                             (log_output upd MsgNoSpaces g3))
                                            \<lparr>rename_button := False\<rparr>
                                     else finish_preview upd g3))"

section \<open>The executor\<close>

text \<open>
  The body of the loop of \<open>rename_files\<close> for one planned triple. After a rename that
  succeeded the message is logged first, then the entry is appended with the time of
  that moment.
\<close>

definition rename_one ::
  "('w gui \<Rightarrow> 'w gui) \<Rightarrow> 'w os \<Rightarrow> change \<Rightarrow> 'w gui \<times> nat \<times> nat \<Rightarrow> 'w gui \<times> nat \<times> nat" where
  "rename_one upd sys ch acc =
     (case ch of (full_path, old, new) \<Rightarrow> case acc of (g, success_count, fail_count) \<Rightarrow>
        let dir_path = dirname full_path; new_path = join dir_path new
        in case os_rename sys (world g) full_path new_path of
             Inr w \<Rightarrow>
               let g1 = log_output upd (MsgRenamed old new)
                          (g\<lparr>world := w, calls := calls g @ [Rename full_path new_path True]\<rparr>)
               in (g1\<lparr>rename_log := rename_log g1 @
                          [\<lparr>old_name = old, new_name = new,
                            timestamp = now_iso sys (world g1)\<rparr>]\<rparr>,
                   success_count + 1, fail_count)
           | Inl e \<Rightarrow>
               (log_output upd (MsgRenameFailed old e)
                  (g\<lparr>calls := calls g @ [Rename full_path new_path False]\<rparr>),
                success_count, fail_count + 1))"

fun rename_loop ::
  "('w gui \<Rightarrow> 'w gui) \<Rightarrow> 'w os \<Rightarrow> change list \<Rightarrow> 'w gui \<times> nat \<times> nat \<Rightarrow> 'w gui \<times> nat \<times> nat" where
  "rename_loop upd sys [] acc = acc"
| "rename_loop upd sys (ch # rest) acc = rename_loop upd sys rest (rename_one upd sys ch acc)"

definition rollback_log_name :: "string \<Rightarrow> string" where
  "rollback_log_name stamp = ''.rename_log_'' @ stamp @ ''.json''"

definition save_rollback_log :: "('w gui \<Rightarrow> 'w gui) \<Rightarrow> 'w os \<Rightarrow> string \<Rightarrow> 'w gui \<Rightarrow> 'w gui" where
  "save_rollback_log upd sys dir_path g =
     (let log_file = join dir_path (rollback_log_name (now_stamp sys (world g)))
      in case os_open sys (world g) log_file of
           Inl e \<Rightarrow> log_output upd (MsgLogNotSaved e)
                      (g\<lparr>calls := calls g @ [WriteLog log_file False]\<rparr>)
         | Inr w1 \<Rightarrow>
             (case os_write sys w1 log_file (rename_log g) of
                (w2, Some e) \<Rightarrow> log_output upd (MsgLogNotSaved e)
                                 (g\<lparr>world := w2, calls := calls g @ [WriteLog log_file False]\<rparr>)
              | (w2, None) \<Rightarrow> log_output upd (MsgLogSaved log_file)
                               (g\<lparr>world := w2, calls := calls g @ [WriteLog log_file True]\<rparr>)))"

text \<open>
  \<open>rename_files upd sys confirm g\<close>: \<open>confirm\<close> is the answer to the question of
  \<open>askyesno\<close>. The loop runs over the plan as it is stored when the loop starts, after
  the three lines of the heading; after the loop \<open>dir_path\<close> is the directory of the last
  file of that plan.
\<close>

definition rename_files :: "('w gui \<Rightarrow> 'w gui) \<Rightarrow> 'w os \<Rightarrow> bool \<Rightarrow> 'w gui \<Rightarrow> 'w gui" where
  "rename_files upd sys confirm g =
     (if current_changes g = [] then messagebox DlgNoChanges g
      else if current_collisions g \<noteq> [] then messagebox DlgCollisions g
      else
        let g0 = messagebox (DlgConfirm (length (current_changes g))) g
        in if \<not> confirm then g0
           else
             let g1 = log_output upd MsgRule
                        (log_output upd MsgRenaming (log_output upd MsgRule (clear_output g0)));
                 plan = current_changes g1
             in case rename_loop upd sys plan (g1, 0, 0) of
                  (g2, success_count, fail_count) \<Rightarrow>
                    let g3 = (if fail_count = 0 then log_output upd MsgAllRenamed g2
                              else log_output upd (MsgNotChanged fail_count)
                                     (log_output upd (MsgUpdated success_count)
                                        (log_output upd MsgSomeFailed g2)));
                        g4 = (if success_count > 0
                              then save_rollback_log upd sys (dirname (fst (last plan))) g3
                              else g3);
                        g5 = messagebox (if fail_count = 0 then DlgComplete else DlgFinished) g4
                    in (clear_output g5)\<lparr>current_changes := [], current_collisions := [],
                                          rename_button := False\<rparr>)"

definition invalidate_preview :: "'w gui \<Rightarrow> 'w gui" where
  "invalidate_preview g =
     (clear_output (g\<lparr>rename_button := False\<rparr>))\<lparr>current_changes := [], current_collisions := []\<rparr>"

section \<open>Events\<close>

text \<open>
  The window after \<open>__init__\<close>, and the callbacks the widgets are bound to. Writing one of
  the three text variables runs \<open>invalidate_preview\<close>; choosing a preset runs
  \<open>on_pattern_selected\<close>; the rename button runs its command only while it is enabled.
  \<open>Outside w\<close> is a change of the file system by another program.
\<close>

definition init :: "'w \<Rightarrow> 'w gui" where
  "init w =
     \<lparr> dir_var = [], pattern_var = ReplaceSpacesWithUnderscores, replacement_var = [],
       replace_with_var = [], rename_log = [], current_changes = [], current_collisions = [],
       rename_button = False, output_text = [], dialogs = [], world = w, calls = [],
       uncaught = [] \<rparr>"

datatype 'w event =
    SetDir string
  | SetReplacement string
  | SetReplaceWith string
  | SelectPattern preset
  | ClickPreview
  | ClickRename bool
  | ClickClear
  | Outside 'w

definition on_pattern_selected :: "'w gui \<Rightarrow> 'w gui" where
  "on_pattern_selected g =
     (let g1 = invalidate_preview g
      in case pattern_var g1 of
           RemoveText \<Rightarrow> invalidate_preview (g1\<lparr>replacement_var := []\<rparr>)
         | ReplaceText \<Rightarrow>
             invalidate_preview
               ((invalidate_preview (g1\<lparr>replacement_var := []\<rparr>))\<lparr>replace_with_var := []\<rparr>)
         | AddPrefix \<Rightarrow> invalidate_preview (g1\<lparr>replacement_var := []\<rparr>)
         | AddSuffixBeforeExtension \<Rightarrow> invalidate_preview (g1\<lparr>replacement_var := []\<rparr>)
         | other \<Rightarrow> g1)"

definition handle ::
  "('w gui \<Rightarrow> 'w gui) \<Rightarrow> py_str \<Rightarrow> re_engine \<Rightarrow> 'w os \<Rightarrow> 'w event \<Rightarrow> 'w gui \<Rightarrow> 'w gui" where
  "handle upd py re sys ev g =
     (case ev of
        SetDir s \<Rightarrow> invalidate_preview (g\<lparr>dir_var := s\<rparr>)
      | SetReplacement s \<Rightarrow> invalidate_preview (g\<lparr>replacement_var := s\<rparr>)
      | SetReplaceWith s \<Rightarrow> invalidate_preview (g\<lparr>replace_with_var := s\<rparr>)
      | SelectPattern p \<Rightarrow> on_pattern_selected (g\<lparr>pattern_var := p\<rparr>)
      | ClickPreview \<Rightarrow> preview_changes upd py re sys g
      | ClickRename confirm \<Rightarrow> if rename_button g then rename_files upd sys confirm g else g
      | ClickClear \<Rightarrow> clear_output g
      | Outside w \<Rightarrow> g\<lparr>world := w\<rparr>)"

text \<open>No event is pending: \<open>update\<close> returns at once.\<close>

definition idle :: "'w gui \<Rightarrow> 'w gui" where
  "idle g = g"

section \<open>Specification functions\<close>

text \<open>
  The plan that \<open>apply_regex\<close> is to return: the files whose name matches, with the
  substituted name, without the names that are illegal or unchanged, in the order of the
  input.
\<close>

definition planned :: "re_engine \<Rightarrow> string \<Rightarrow> string \<Rightarrow> nat \<Rightarrow> string list \<Rightarrow> change list" where
  "planned re pattern replacement flags files =
     map (\<lambda>full_path. (full_path, basename full_path,
                        substituted re pattern replacement flags (basename full_path)))
       (filter (\<lambda>full_path.
                  matches re pattern flags (basename full_path) \<and>
                  is_valid_filename (substituted re pattern replacement flags (basename full_path)) \<and>
                  substituted re pattern replacement flags (basename full_path) \<noteq> basename full_path)
               files)"

text \<open>Splitting a name at its last dot; a name without dot has no extension.\<close>

definition split_last_dot :: "string \<Rightarrow> string \<times> string" where
  "split_last_dot name =
     (if extsep \<in> set name
      then (take (nat (rfind extsep name)) name, drop (nat (rfind extsep name)) name)
      else (name, []))"








text \<open>
  The handlers that \<open>update\<close> runs leave the plan, the file system, the rollback log, the
  trace and the uncaught exceptions as they are. Clearing the output is such a handler.
\<close>

definition quiet :: "('w gui \<Rightarrow> 'w gui) \<Rightarrow> bool" where
  "quiet upd =
     (\<forall>g. current_changes (upd g) = current_changes g \<and> world (upd g) = world g \<and>
          rename_log (upd g) = rename_log g \<and> calls (upd g) = calls g \<and>
          uncaught (upd g) = uncaught g)"

text \<open>The calls of a trace, by kind.\<close>

definition renames_of :: "syscall list \<Rightarrow> (string \<times> string \<times> bool) list" where
  "renames_of cs = concat (map (\<lambda>c. case c of Rename a b ok \<Rightarrow> [(a, b, ok)] | WriteLog p ok \<Rightarrow> []) cs)"


definition new_calls :: "'w gui \<Rightarrow> 'w gui \<Rightarrow> syscall list" where
  "new_calls g g' = drop (length (calls g)) (calls g')"




section \<open>Sample inputs\<close>

text \<open>
  A file system for the examples: the world is the list of the names of the regular files
  of the one directory \<open>/d\<close>. Renaming a file that exists replaces the target; opening a
  file for writing creates it. \<open>full_os\<close> is the same file system with no room for a new
  file, and in \<open>short_os\<close> the file is created and the write fails.
\<close>

definition flat_os :: "string list os" where
  "flat_os =
     \<lparr> os_isdir = (\<lambda>w p. p = ''/d''),
       os_listdir = (\<lambda>w p. if p = ''/d'' then Inr w else Inl OSError),
       os_isfile = (\<lambda>w p. p \<in> set (map (join ''/d'') w)),
       os_rename = (\<lambda>w src dst.
          if src \<in> set (map (join ''/d'') w)
          then Inr (basename dst # removeAll (basename dst) (removeAll (basename src) w))
          else Inl OSError),
       os_open = (\<lambda>w p. Inr (basename p # removeAll (basename p) w)),
       os_write = (\<lambda>w p entries. (w, None)),
       now_iso = (\<lambda>w. ''2024-01-15T10:30:00''),
       now_stamp = (\<lambda>w. ''20240115_103000'') \<rparr>"



definition tab :: char where
  "tab = CHR 0x09"

text \<open>A window with a plan of two changes and no collision, ready to rename.\<close>

definition ready_plan :: "string list gui" where
  "ready_plan =
     preview_changes idle ascii_str fragment_engine flat_os
       (handle idle ascii_str fragment_engine flat_os (SetDir ''/d'') (init [''a b'', ''c d'']))"


text \<open>
  The same window after another program has replaced the two files by two files whose
  names contain tabs and no space.
\<close>

definition tabs_arrived :: "string list gui" where
  "tabs_arrived =
     handle idle ascii_str fragment_engine flat_os
       (Outside [''a'' @ [tab] @ ''b'', ''a'' @ [tab, tab] @ ''b'']) ready_plan"

text \<open>
  An \<open>update\<close> that finds a click on the rename button pending when the message about
  the missing spaces has been logged, and nothing pending otherwise. The question of the
  click is answered with yes.
\<close>

definition rename_clicked :: "string list gui \<Rightarrow> string list gui" where
  "rename_clicked g =
     (if output_text g \<noteq> [] \<and> last (output_text g) = MsgNoSpaces
      then handle idle ascii_str fragment_engine flat_os (ClickRename True) g
      else g)"

section \<open>Properties of collision detection\<close>

lemma dict_append_keys:
  "set (map fst (dict_append key v d)) = insert key (set (map fst d))"
  by (induction key v d rule: dict_append.induct) (simp_all add: insert_commute)

lemma dict_append_distinct:
  "distinct (map fst d) \<Longrightarrow> distinct (map fst (dict_append key v d))"
proof (induction d)
  case Nil
  then show ?case by simp
next
  case (Cons kv d)
  obtain k vs where kv: "kv = (k, vs)" by (cases kv)
  from Cons have "distinct (map fst (dict_append key v d))" by simp
  moreover from Cons kv have "k \<notin> set (map fst d)" by simp
  ultimately show ?case
    using Cons.prems kv dict_append_keys [of key v d] by auto
qed

lemma dict_append_lookup:
  "map_of (dict_append key v d) k =
     (if k = key then Some ((case map_of d key of None \<Rightarrow> [] | Some vs \<Rightarrow> vs) @ [v])
      else map_of d k)"
  by (induction d) auto

lemma group_step_distinct:
  "distinct (map fst d) \<Longrightarrow> distinct (map fst (group_step d ch))"
  by (cases ch) (simp add: group_step_def dict_append_distinct)

lemma group_step_lookup:
  "map_of (group_step d ch) k =
     (if target_path ch = k
      then Some ((case map_of d k of None \<Rightarrow> [] | Some vs \<Rightarrow> vs) @ [fst (snd ch)])
      else map_of d k)"
  by (cases ch) (auto simp: group_step_def target_path_def dict_append_lookup)

lemma foldl_group_distinct:
  "distinct (map fst d) \<Longrightarrow> distinct (map fst (foldl group_step d changes))"
  by (induction changes arbitrary: d) (simp_all add: group_step_distinct)

lemma foldl_group_lookup:
  "map_of (foldl group_step d changes) k =
     (let old = (case map_of d k of None \<Rightarrow> [] | Some vs \<Rightarrow> vs)
      in if map_of d k = None \<and> claimants k changes = [] then None
         else Some (old @ claimants k changes))"
proof (induction changes arbitrary: d)
  case Nil
  then show ?case by (auto simp: claimants_def split: option.splits)
next
  case (Cons ch changes)
  show ?case
    by (simp add: Cons.IH group_step_lookup claimants_def Let_def split: option.splits)
qed

lemma map_of_filter_snd:
  "distinct (map fst d) \<Longrightarrow>
   map_of (filter (\<lambda>(k, v). P v) d) k =
     (case map_of d k of None \<Rightarrow> None | Some v \<Rightarrow> if P v then Some v else None)"
proof (induction d)
  case Nil
  then show ?case by simp
next
  case (Cons kv d)
  obtain k' v' where kv: "kv = (k', v')" by (cases kv)
  with Cons have notin: "k' \<notin> fst ` set d" and IH:
    "map_of (filter (\<lambda>(k, v). P v) d) k =
       (case map_of d k of None \<Rightarrow> None | Some v \<Rightarrow> if P v then Some v else None)"
    by auto
  from notin have "map_of d k' = None"
    by (simp add: map_of_eq_None_iff)
  with IH kv show ?case by (auto split: option.splits)
qed

text \<open>
  Claim C2. For every list of planned changes, the result of \<open>detect_collisions\<close> is a
  dictionary (its keys are distinct) in which a target path is a key exactly when two or
  more triples claim it, and the value stored there is the list of the old names of all
  the triples that claim it, in plan order. A target claimed by exactly one triple, or by
  none, is not a key.
\<close>

theorem detect_collisions_exact:
  "distinct (map fst (detect_collisions changes)) \<and>
   map_of (detect_collisions changes) key =
     (if 2 \<le> length (claimants key changes) then Some (claimants key changes) else None)"
proof -
  have d: "distinct (map fst (foldl group_step [] changes))"
    by (rule foldl_group_distinct) simp
  have "distinct (map fst (detect_collisions changes))"
    unfolding detect_collisions_def using d by (simp add: distinct_map_filter)
  moreover have "map_of (detect_collisions changes) key =
     (if 2 \<le> length (claimants key changes) then Some (claimants key changes) else None)"
    unfolding detect_collisions_def
    by (simp add: map_of_filter_snd [OF d] foldl_group_lookup Let_def)
  ultimately show ?thesis by simp
qed

section \<open>Properties of the plan generator\<close>

lemma apply_regex_file_cases:
  assumes "returns_on re p r fl (basename f)"
  shows "apply_regex_file re p r fl f =
           (if \<not> matches re p fl (basename f) then Skipped
            else if \<not> is_valid_filename (substituted re p r fl (basename f))
                 then Warned (MsgSkipIllegal (basename f))
            else if substituted re p r fl (basename f) = basename f then Skipped
            else Planned (f, basename f, substituted re p r fl (basename f)))"
  using assms
  by (auto simp: apply_regex_file_def returns_on_def matches_def substituted_def Let_def
           split: sum.splits bool.splits)

lemma apply_regex_loop_planned:
  assumes "\<forall>f \<in> set files. returns_on re p r fl (basename f)"
  shows "snd (apply_regex_loop upd re p r fl files g chs) = Inr (chs @ planned re p r fl files)"
  using assms
proof (induction files arbitrary: g chs)
  case Nil
  then show ?case by (simp add: planned_def)
next
  case (Cons f files)
  then have f: "returns_on re p r fl (basename f)"
    and rest: "\<forall>f \<in> set files. returns_on re p r fl (basename f)" by simp_all
  show ?case
    by (simp add: apply_regex_file_cases [OF f] Cons.IH [OF rest] planned_def)
qed

lemma apply_regex_planned:
  assumes "\<forall>f \<in> set files. returns_on re p r fl (basename f)"
  shows "snd (apply_regex upd re files p r fl g) = Inr (planned re p r fl files)"
  unfolding apply_regex_def using apply_regex_loop_planned [OF assms, of upd g "[]"] by simp

text \<open>
  Claim C3. For every list of files, pattern, replacement and flags on which the calls of
  \<open>re.search\<close> and \<open>re.sub\<close> return, and whatever the handlers do that run while the
  warnings are logged, \<open>apply_regex\<close> returns exactly the triples (path,
  old name, new name) of the files whose basename matches the pattern, the new name being
  the substitution in the old name, without the triples whose new name equals the old
  name or contains one of the characters \<open>< > : " / \ | ? *\<close>, in the order of the input.
\<close>

theorem apply_regex_exact:
  assumes "\<forall>f \<in> set files. returns_on re pattern replacement flags (basename f)"
  shows "snd (apply_regex upd re files pattern replacement flags g) =
           Inr (map (\<lambda>full_path. (full_path, basename full_path,
                       substituted re pattern replacement flags (basename full_path)))
                  (filter (\<lambda>full_path.
                     matches re pattern flags (basename full_path) \<and>
                     is_valid_filename
                       (substituted re pattern replacement flags (basename full_path)) \<and>
                     substituted re pattern replacement flags (basename full_path)
                       \<noteq> basename full_path)
                   files))"
  using apply_regex_planned [OF assms] by (simp add: planned_def)

theorem apply_regex_exact_witness:
  "list_all (\<lambda>f. returns_on fragment_engine (bs # ''s+'') ''_'' 0 (basename f))
     [''/d/a b.txt'', ''/d/c.txt'', ''/d/e f?.txt''] \<and>
   snd (apply_regex idle fragment_engine [''/d/a b.txt'', ''/d/c.txt'', ''/d/e f?.txt'']
          (bs # ''s+'') ''_'' 0 (init ([] :: string list))) =
     Inr [(''/d/a b.txt'', ''a b.txt'', ''a_b.txt'')]"
proof -
  have h: "\<forall>f \<in> set [''/d/a b.txt'', ''/d/c.txt'', ''/d/e f?.txt''].
             returns_on fragment_engine (bs # ''s+'') ''_'' 0 (basename f)"
    by code_simp
  have e: "map (\<lambda>full_path. (full_path, basename full_path,
                  substituted fragment_engine (bs # ''s+'') ''_'' 0 (basename full_path)))
             (filter (\<lambda>full_path.
                matches fragment_engine (bs # ''s+'') 0 (basename full_path) \<and>
                is_valid_filename
                  (substituted fragment_engine (bs # ''s+'') ''_'' 0 (basename full_path)) \<and>
                substituted fragment_engine (bs # ''s+'') ''_'' 0 (basename full_path)
                  \<noteq> basename full_path)
              [''/d/a b.txt'', ''/d/c.txt'', ''/d/e f?.txt'']) =
           [(''/d/a b.txt'', ''a b.txt'', ''a_b.txt'')]"
    by code_simp
  from h have l: "list_all (\<lambda>f. returns_on fragment_engine (bs # ''s+'') ''_'' 0 (basename f))
                    [''/d/a b.txt'', ''/d/c.txt'', ''/d/e f?.txt'']"
    unfolding list_all_iff .
  from apply_regex_exact [OF h, of idle "init ([] :: string list)"]
  have r: "snd (apply_regex idle fragment_engine [''/d/a b.txt'', ''/d/c.txt'', ''/d/e f?.txt'']
                  (bs # ''s+'') ''_'' 0 (init ([] :: string list))) =
             Inr [(''/d/a b.txt'', ''a b.txt'', ''a_b.txt'')]"
    unfolding e .
  from l r show ?thesis by (rule conjI)
qed

section \<open>Properties of the file collector\<close>

text \<open>
  Claim C7. For every directory that can be listed, \<open>collect_files\<close> returns the entries
  of that directory that are regular files, each as the directory joined with the entry
  name and as often as it is listed, sorted by full path; nothing below the directory is
  read; and the result for \<open>recursive = True\<close> is the result for \<open>recursive = False\<close>.
\<close>

theorem collect_files_exact:
  assumes "os_listdir sys w dir_path = Inr names"
  shows "\<exists>files. collect_files sys w dir_path recursive = Inr files \<and>
           sorted files \<and>
           mset files = mset (filter (os_isfile sys w) (map (join dir_path) names)) \<and>
           collect_files sys w dir_path True = collect_files sys w dir_path False"
  using assms by (simp add: collect_files_def)

theorem collect_files_exact_witness:
  "os_listdir flat_os [''b'', ''a''] ''/d'' = Inr [''b'', ''a''] \<and>
   (\<exists>files. collect_files flat_os [''b'', ''a''] ''/d'' True = Inr files \<and>
      sorted files \<and>
      mset files = mset (filter (os_isfile flat_os [''b'', ''a'']) (map (join ''/d'') [''b'', ''a''])) \<and>
      collect_files flat_os [''b'', ''a''] ''/d'' True = collect_files flat_os [''b'', ''a''] ''/d'' False)"
proof -
  have h: "os_listdir flat_os [''b'', ''a''] ''/d'' = Inr [''b'', ''a'']"
    by (simp add: flat_os_def)
  show ?thesis
    using h collect_files_exact [OF h, of True] by simp
qed

section \<open>Properties of the path functions\<close>

lemma rfind_absent: "rfind c s = - 1 \<longleftrightarrow> c \<notin> set s"
proof -
  have "filter (\<lambda>i. s ! i = c) (rev [0..<length s]) = [] \<longleftrightarrow> c \<notin> set s"
    by (auto simp: filter_empty_conv in_set_conv_nth)
  then show ?thesis
    by (auto simp: rfind_def split: list.splits)
qed

lemma rfind_present:
  assumes "c \<in> set s"
  shows "\<exists>i. rfind c s = int i \<and> i < length s \<and> s ! i = c \<and>
             (\<forall>j. i < j \<and> j < length s \<longrightarrow> s ! j \<noteq> c)"
proof -
  let ?P = "\<lambda>i. s ! i = c"
  from assms have ne: "filter ?P (rev [0..<length s]) \<noteq> []"
    by (auto simp: filter_empty_conv in_set_conv_nth)
  then obtain i rest where ir: "filter ?P (rev [0..<length s]) = i # rest"
    by (cases "filter ?P (rev [0..<length s])") auto
  then have r: "rfind c s = int i" by (simp add: rfind_def)
  from ir have "i \<in> set (filter ?P (rev [0..<length s]))" by simp
  then have i: "i < length s" "s ! i = c" by auto
  from ir have "rev (filter ?P [0..<length s]) = i # rest" by (simp add: rev_filter)
  then have "filter ?P [0..<length s] = rev rest @ [i]"
    by (simp add: rev_swap)
  moreover have "sorted (filter ?P [0..<length s])"
    by (rule sorted_wrt_filter) simp
  ultimately have "sorted (rev rest @ [i])" by simp
  then have le: "\<forall>x \<in> set (rev rest). x \<le> i" by (simp add: sorted_append)
  have "\<forall>j. i < j \<and> j < length s \<longrightarrow> s ! j \<noteq> c"
  proof (intro allI impI)
    fix j assume j: "i < j \<and> j < length s"
    show "s ! j \<noteq> c"
    proof
      assume "s ! j = c"
      with j have "j \<in> set (filter ?P [0..<length s])" by simp
      then have "j \<in> set (rev rest @ [i])"
        using \<open>filter ?P [0..<length s] = rev rest @ [i]\<close> by simp
      with le j show False by auto
    qed
  qed
  with r i show ?thesis by blast
qed

lemma basename_no_sep: "sep \<notin> set (basename p)"
proof (cases "sep \<in> set p")
  case False
  then have "rfind sep p = - 1" by (simp add: rfind_absent)
  with False show ?thesis by (simp add: basename_def)
next
  case True
  from rfind_present [OF True] obtain i where
    i: "rfind sep p = int i" "i < length p"
       "\<forall>j. i < j \<and> j < length p \<longrightarrow> p ! j \<noteq> sep" by blast
  have "basename p = drop (Suc i) p" using i(1) by (simp add: basename_def nat_add_distrib)
  moreover have "sep \<notin> set (drop (Suc i) p)"
    using i(3) by (auto simp: in_set_conv_nth)
  ultimately show ?thesis by simp
qed

lemma splitext_concat: "fst (splitext p) @ snd (splitext p) = p"
  by (simp add: splitext_def Let_def)

lemma list_ex_take_nth:
  "n \<le> length xs \<Longrightarrow> list_ex P (take n xs) = list_ex (\<lambda>i. P (xs ! i)) [0..<n]"
proof -
  assume "n \<le> length xs"
  then have "set (take n xs) = nth xs ` {0..<n}" by (simp add: nth_image)
  then show ?thesis by (simp add: list_ex_iff)
qed

lemma splitext_of_name:
  assumes "sep \<notin> set name"
  shows "splitext name =
           (if list_ex (\<lambda>c. c \<noteq> extsep) (fst (split_last_dot name))
            then split_last_dot name else (name, []))"
proof (cases "extsep \<in> set name")
  case False
  then have "rfind extsep name = - 1" by (simp add: rfind_absent)
  moreover from assms have "rfind sep name = - 1" by (simp add: rfind_absent)
  ultimately show ?thesis using False
    by (simp add: splitext_def split_last_dot_def)
next
  case True
  from rfind_present [OF True] obtain i where
    i: "rfind extsep name = int i" "i < length name" by blast
  from assms have s: "rfind sep name = - 1" by (simp add: rfind_absent)
  have "list_ex (\<lambda>c. c \<noteq> extsep) (take i name) =
          list_ex (\<lambda>k. name ! k \<noteq> extsep) [0..<i]"
    using i(2) by (intro list_ex_take_nth) simp
  then show ?thesis using True i(1) s
    by (simp add: splitext_def split_last_dot_def)
qed

section \<open>Properties of the case conversion\<close>

lemma case_changes_member:
  "(full_path, old, new) \<in> set (case_changes py mode files) \<Longrightarrow>
     full_path \<in> set files \<and> old = basename full_path \<and> new = case_new_name py mode old \<and> new \<noteq> old"
  by (induction files) (auto simp: Let_def split: if_splits)

text \<open>
  Claim C9, as the program has it. Every change planned by a case-conversion preset keeps
  the extension that \<open>os.path.splitext\<close> computes: the new name is the transformed stem
  followed by that extension, unchanged. The extension is the part of the name from its
  last dot on when a character other than a dot stands before that dot; otherwise the
  extension is empty and the whole name is the stem.
\<close>

theorem case_conversion_keeps_extension:
  assumes "(full_path, old, new) \<in> set (case_changes py mode files)"
  shows "old = basename full_path \<and>
         new = new_stem py mode (fst (splitext old)) @ snd (splitext old) \<and>
         old = fst (splitext old) @ snd (splitext old) \<and>
         splitext old =
           (if list_ex (\<lambda>c. c \<noteq> extsep) (fst (split_last_dot old))
            then split_last_dot old else (old, []))"
proof -
  from case_changes_member [OF assms]
  have o: "old = basename full_path" and n: "new = case_new_name py mode old" by simp_all
  from o have "sep \<notin> set old" by (simp add: basename_no_sep)
  then have "splitext old =
           (if list_ex (\<lambda>c. c \<noteq> extsep) (fst (split_last_dot old))
            then split_last_dot old else (old, []))"
    by (rule splitext_of_name)
  moreover have "new = new_stem py mode (fst (splitext old)) @ snd (splitext old)"
    using n by (simp add: case_new_name_def split: prod.splits)
  ultimately show ?thesis using o splitext_concat [of old] by simp
qed

theorem case_conversion_keeps_extension_witness:
  "(''/d/notes.v1.txt'', ''notes.v1.txt'', ''NOTES.V1.txt'')
      \<in> set (case_changes ascii_str Upper [''/d/notes.v1.txt'']) \<and>
   ''NOTES.V1.txt'' =
      new_stem ascii_str Upper (fst (splitext ''notes.v1.txt'')) @ snd (splitext ''notes.v1.txt'') \<and>
   splitext ''notes.v1.txt'' = (''notes.v1'', ''.txt'')"
proof -
  have h: "(''/d/notes.v1.txt'', ''notes.v1.txt'', ''NOTES.V1.txt'')
             \<in> set (case_changes ascii_str Upper [''/d/notes.v1.txt''])"
    by code_simp
  have s: "splitext ''notes.v1.txt'' = (''notes.v1'', ''.txt'')" by code_simp
  from case_conversion_keeps_extension [OF h]
  have "''NOTES.V1.txt'' =
      new_stem ascii_str Upper (fst (splitext ''notes.v1.txt'')) @ snd (splitext ''notes.v1.txt'')"
    by (rule conjunct1 [OF conjunct2])
  with h s show ?thesis by (intro conjI)
qed

text \<open>
  The claim with the extension taken at the last dot fails on a name that begins with
  its only dots: \<open>.bashrc\<close> is all stem for the program, and is planned in upper case.
\<close>

theorem case_conversion_last_dot_counterexample:
  "case_changes ascii_str Upper [''/d/.bashrc''] = [(''/d/.bashrc'', ''.bashrc'', ''.BASHRC'')] \<and>
   split_last_dot ''.bashrc'' = ([], ''.bashrc'') \<and>
   ''.BASHRC'' \<noteq> new_stem ascii_str Upper (fst (split_last_dot ''.bashrc'')) @ snd (split_last_dot ''.bashrc'')"
  by code_simp

section \<open>Validation of planned names\<close>

text \<open>
  Claim C4 at the file name \<open>a:b.txt\<close> and the preset \<open>Convert to Uppercase\<close>: the preview
  plans the new name \<open>A:B.txt\<close>, which contains a colon, and enables the rename action.
  The case-conversion branch does not call \<open>is_valid_filename\<close>.
\<close>

theorem case_conversion_plans_illegal_name:
  "current_changes
     (preview_changes idle ascii_str fragment_engine flat_os
        ((init [''a:b.txt''])\<lparr>dir_var := ''/d'', pattern_var := ConvertToUppercase\<rparr>)) =
     [(''/d/a:b.txt'', ''a:b.txt'', ''A:B.txt'')] \<and>
   rename_button
     (preview_changes idle ascii_str fragment_engine flat_os
        ((init [''a:b.txt''])\<lparr>dir_var := ''/d'', pattern_var := ConvertToUppercase\<rparr>)) \<and>
   \<not> is_valid_filename ''A:B.txt''"
  by code_simp

section \<open>Properties of the executor\<close>



lemma quiet_log_output:
  assumes "quiet upd"
  shows "current_changes (log_output upd m g) = current_changes g"
    and "world (log_output upd m g) = world g"
    and "rename_log (log_output upd m g) = rename_log g"
    and "calls (log_output upd m g) = calls g"
    and "uncaught (log_output upd m g) = uncaught g"
  using assms by (simp_all add: quiet_def log_output_def)






















section \<open>Collisions and the rename action\<close>

text \<open>
  Claim C1 at a preview that finds the names changed. The window has a plan of two
  changes without collision and the rename button is enabled; another program replaces
  the two files by \<open>a<tab>b\<close> and \<open>a<tab><tab>b\<close>. A preview of \<open>Replace Spaces with
  Underscores\<close> then stores the plan that sends both names to \<open>a_b\<close>, finds no space in
  the names, and logs that message before it disables the button; the stored collision
  map is still the empty one of the earlier preview. A click on the rename button that
  the \<open>update\<close> of that message dispatches passes both tests of \<open>rename_files\<close>, and once
  confirmed both files are renamed to \<open>/d/a_b\<close>: one file is left of the two.
\<close>

theorem colliding_plan_is_renamed:
  "rename_button tabs_arrived \<and> current_collisions tabs_arrived = [] \<and>
   world tabs_arrived = [''a'' @ [tab] @ ''b'', ''a'' @ [tab, tab] @ ''b''] \<and>
   detect_collisions
     (current_changes (preview_changes idle ascii_str fragment_engine flat_os tabs_arrived)) =
     [(''/d/a_b'', [''a'' @ [tab, tab] @ ''b'', ''a'' @ [tab] @ ''b''])] \<and>
   renames_of (new_calls tabs_arrived
                 (preview_changes rename_clicked ascii_str fragment_engine flat_os tabs_arrived)) =
     [(''/d/a'' @ [tab, tab] @ ''b'', ''/d/a_b'', True),
      (''/d/a'' @ [tab] @ ''b'', ''/d/a_b'', True)] \<and>
   world (preview_changes rename_clicked ascii_str fragment_engine flat_os tabs_arrived) =
     [''.rename_log_20240115_103000.json'', ''a_b'']"
  by code_simp

section \<open>Literal search text\<close>

lemma special_not_alnum: "c \<in> set special_chars \<Longrightarrow> \<not> is_alnum c"
  by (auto simp: special_chars_def is_alnum_def lowers_def uppers_def)

lemma meta_special: "c \<in> set metachars \<Longrightarrow> c \<in> set special_chars"
  by (auto simp: special_chars_def metachars_def)

lemma bs_meta: "bs \<in> set metachars"
  by (simp add: metachars_def bs_def)

lemma re_escape_Cons:
  "re_escape (c # t) = (if c \<in> set special_chars then [bs, c] else [c]) @ re_escape t"
  by (simp add: re_escape_def)

lemma re_escape_Nil_iff: "re_escape t = [] \<longleftrightarrow> t = []"
  by (cases t) (simp_all add: re_escape_def)

lemma parse_literal_plain:
  assumes "c \<notin> set metachars" and "parse_literal rest = Some l"
  shows "parse_literal (c # rest) = Some (c # l)"
proof (cases rest)
  case Nil
  with assms show ?thesis by simp
next
  case (Cons d cs)
  from assms(1) bs_meta have "c \<noteq> bs" by auto
  with assms Cons show ?thesis by simp
qed

lemma parse_literal_escape: "parse_literal (re_escape t) = Some t"
proof (induction t)
  case Nil
  then show ?case by (simp add: re_escape_def)
next
  case (Cons c t)
  show ?case
  proof (cases "c \<in> set special_chars")
    case True
    then have "\<not> is_alnum c" by (rule special_not_alnum)
    with True Cons show ?thesis by (simp add: re_escape_Cons)
  next
    case False
    then have "c \<notin> set metachars" using meta_special by blast
    from parse_literal_plain [OF this Cons.IH] False show ?thesis
      by (simp add: re_escape_Cons)
  qed
qed

lemma literal_returns:
  assumes "literal_semantics re" and "parse_literal p = Some l" and "bs \<notin> set r"
  shows "returns_on re p r 0 name"
    and "matches re p 0 name = search_lit l name"
    and "substituted re p r 0 name = sub_lit l r name"
  using assms by (simp_all add: literal_semantics_def returns_on_def matches_def substituted_def
                       split: bool.splits)

lemma foldl_log_changes:
  assumes "quiet upd"
  shows "current_changes (foldl (\<lambda>g x. log_output upd (f x) g) g xs) = current_changes g"
  by (induction xs arbitrary: g) (simp_all add: quiet_log_output [OF assms])

lemma show_collision_changes:
  assumes "quiet upd"
  shows "current_changes (show_collision upd g kv) = current_changes g"
  by (cases kv)
     (simp add: show_collision_def quiet_log_output [OF assms] foldl_log_changes [OF assms])

lemma show_collisions_changes:
  assumes "quiet upd"
  shows "current_changes (show_collisions upd g) = current_changes g"
proof -
  have fl: "current_changes (foldl (show_collision upd) h kvs) = current_changes h" for h kvs
    by (induction kvs arbitrary: h) (simp_all add: show_collision_changes [OF assms])
  show ?thesis
    by (simp add: show_collisions_def Let_def fl quiet_log_output [OF assms])
qed

lemma show_plan_changes:
  assumes "quiet upd"
  shows "current_changes (show_plan upd g) = current_changes g"
proof -
  have fl: "current_changes
          (foldl (\<lambda>g ch. case ch of (full_path, old, new) \<Rightarrow>
                     log_output upd (MsgPreviewLine old new) g) h chs) = current_changes h"
    for h chs
    by (induction chs arbitrary: h) (auto simp: quiet_log_output [OF assms])
  show ?thesis
    by (simp add: show_plan_def Let_def fl quiet_log_output [OF assms])
qed

lemma finish_preview_changes:
  assumes "quiet upd"
  shows "current_changes (finish_preview upd g) = current_changes g"
  by (simp add: finish_preview_def Let_def quiet_log_output [OF assms]
        show_collisions_changes [OF assms] show_plan_changes [OF assms])

lemma fragment_literal: "literal_semantics fragment_engine"
proof -
  have "parse_class_plus p = None" if "parse_literal p = Some l" for p l
  proof (rule ccontr)
    assume "parse_class_plus p \<noteq> None"
    then have "p = [bs, CHR ''s'', CHR ''+''] \<or> p = [bs, CHR ''d'', CHR ''+'']"
      by (auto simp: parse_class_plus_def split: if_splits)
    then have "parse_literal p = None"
      by (auto simp: is_alnum_def lowers_def uppers_def)
    with that show False by simp
  qed
  then show ?thesis
    by (simp add: literal_semantics_def fragment_engine_def)
qed

text \<open>
  Claim C8. Under the presets \<open>Remove Text\<close> and \<open>Replace Text\<close> the pattern is the
  escaped, stripped search text, and for every search text it denotes that text
  literally. With an engine that treats literal patterns as Python does, and a
  replacement without backslash, the plan is: for each file whose name contains the
  text, the name with the leftmost non-overlapping occurrences of the text replaced, the
  illegal and the unchanged names left out. It is the plan that the preview stores when
  the handlers that run meanwhile leave the plan alone.
\<close>

theorem search_text_is_literal:
  assumes "literal_semantics re"
    and "pattern_var g = RemoveText \<or> pattern_var g = ReplaceText"
    and "bs \<notin> set (str_strip py (replace_with_var g))"
  defines "txt \<equiv> str_strip py (replacement_var g)"
    and "repl \<equiv> (if pattern_var g = RemoveText then [] else str_strip py (replace_with_var g))"
  defines "plan \<equiv> (\<lambda>files.
             map (\<lambda>f. (f, basename f, sub_lit txt repl (basename f)))
               (filter (\<lambda>f. search_lit txt (basename f) \<and>
                             is_valid_filename (sub_lit txt repl (basename f)) \<and>
                             sub_lit txt repl (basename f) \<noteq> basename f) files))"
  shows "build_rule py g = Regex (re_escape txt) repl \<and>
         parse_literal (re_escape txt) = Some txt \<and>
         snd (apply_regex any_upd re files (re_escape txt) repl 0 h) = Inr (plan files) \<and>
         (quiet upd \<and> str_strip py (dir_var g) \<noteq> [] \<and>
          os_isdir sys (world g) (str_strip py (dir_var g)) \<and>
          collect_files sys (world g) (str_strip py (dir_var g)) False = Inr files \<and>
          files \<noteq> [] \<longrightarrow>
            current_changes (preview_changes upd py re sys g) = plan files)"
proof -
  have rule: "build_rule py g = Regex (re_escape txt) repl"
    using assms(2) by (auto simp: build_rule_def txt_def repl_def)
  have lit: "parse_literal (re_escape txt) = Some txt" by (rule parse_literal_escape)
  have nb: "bs \<notin> set repl" using assms(3) by (simp add: repl_def)
  note L = literal_returns [OF assms(1) lit nb]
  have ret: "\<forall>f \<in> set files. returns_on re (re_escape txt) repl 0 (basename f)"
    by (simp add: L(1))
  have ar: "snd (apply_regex u re files (re_escape txt) repl 0 k) = Inr (plan files)" for u k
    using apply_regex_planned [OF ret, of u k] by (simp add: planned_def plan_def L(2,3))
  have pv: "current_changes (preview_changes upd py re sys g) = plan files"
    if v: "quiet upd \<and> str_strip py (dir_var g) \<noteq> [] \<and>
           os_isdir sys (world g) (str_strip py (dir_var g)) \<and>
           collect_files sys (world g) (str_strip py (dir_var g)) False = Inr files \<and>
           files \<noteq> []"
  proof -
    from v have q: "quiet upd" by simp
    let ?g1 = "log_output upd (MsgFound (length files)) (clear_output g)"
    obtain g2 where ws:
      "apply_regex upd re files (re_escape txt) repl 0 ?g1 = (g2, Inr (plan files))"
      using ar [of upd ?g1]
      by (cases "apply_regex upd re files (re_escape txt) repl 0 ?g1") auto
    have comp: "re_compile re (re_escape txt)"
      using assms(1) lit by (simp add: literal_semantics_def)
    have sp: "pattern_var g \<notin> {ReplaceSpacesWithUnderscores, ReplaceSpacesWithHyphens}"
      using assms(2) by auto
    have co: "dir_var (clear_output g) = dir_var g" "world (clear_output g) = world g"
      "pattern_var (clear_output g) = pattern_var g"
      by (simp_all add: clear_output_def)
    have cb: "build_rule py (clear_output g) = build_rule py g"
      by (simp add: clear_output_def build_rule_def split: preset.splits)
    show ?thesis
      using v ws comp sp rule
      by (simp add: preview_changes_def Let_def co cb finish_preview_changes [OF q])
  qed
  from rule lit ar pv show ?thesis by blast
qed

theorem search_text_is_literal_witness:
  "literal_semantics fragment_engine \<and>
   snd (apply_regex idle fragment_engine [''/d/app v1.0.txt'', ''/d/v1x0.txt'']
          (re_escape ''v1.0'') ''v2'' 0 (init ([] :: string list))) =
     Inr [(''/d/app v1.0.txt'', ''app v1.0.txt'', ''app v2.txt'')]"
proof -
  let ?g = "(init ([] :: string list))\<lparr>pattern_var := ReplaceText, replacement_var := '' v1.0 '',
                                          replace_with_var := ''v2''\<rparr>"
  have h1: "literal_semantics fragment_engine" by (rule fragment_literal)
  have h2: "pattern_var ?g = RemoveText \<or> pattern_var ?g = ReplaceText" by simp
  have h3: "bs \<notin> set (str_strip ascii_str (replace_with_var ?g))" by code_simp
  have t: "str_strip ascii_str (replacement_var ?g) = ''v1.0''" by code_simp
  have r: "(if pattern_var ?g = RemoveText then [] else str_strip ascii_str (replace_with_var ?g))
             = ''v2''"
    by code_simp
  have p: "map (\<lambda>f. (f, basename f, sub_lit ''v1.0'' ''v2'' (basename f)))
             (filter (\<lambda>f. search_lit ''v1.0'' (basename f) \<and>
                           is_valid_filename (sub_lit ''v1.0'' ''v2'' (basename f)) \<and>
                           sub_lit ''v1.0'' ''v2'' (basename f) \<noteq> basename f)
                [''/d/app v1.0.txt'', ''/d/v1x0.txt'']) =
           [(''/d/app v1.0.txt'', ''app v1.0.txt'', ''app v2.txt'')]"
    by code_simp
  from search_text_is_literal [OF h1 h2 h3,
         of idle "[''/d/app v1.0.txt'', ''/d/v1x0.txt'']" "init ([] :: string list)"]
  have "snd (apply_regex idle fragment_engine [''/d/app v1.0.txt'', ''/d/v1x0.txt'']
          (re_escape ''v1.0'') ''v2'' 0 (init ([] :: string list))) =
     Inr [(''/d/app v1.0.txt'', ''app v1.0.txt'', ''app v2.txt'')]"
    unfolding t r p by (rule conjunct1 [OF conjunct2 [OF conjunct2]])
  with h1 show ?thesis by (intro conjI)
qed

end
